theory Spec2Isabelle
  imports Main "HOL-Library.Multiset"
begin

section \<open>The data read by the dataflow diagnostics pass\<close>

text \<open>
  The pass of \<^verbatim>\<open>lib/SIL/Passes/DataflowDiagnostics.cpp\<close> walks a SIL module and
  pushes diagnostics to the diagnostic engine of the AST context. The classes it reads
  (\<^verbatim>\<open>Type\<close>, \<^verbatim>\<open>FuncExpr\<close>, \<^verbatim>\<open>SILLocation\<close>, \<^verbatim>\<open>SILInstruction\<close>,
  \<^verbatim>\<open>SILFunction\<close>, \<^verbatim>\<open>SILModule\<close>) are declared in headers of the compiler,
  outside this file. Each is modelled by the accessors the pass calls on it, with the
  content the specification gives it in its data model.
\<close>

subsection \<open>Types\<close>

text \<open>
  Modelled from the spec: the declaration of \<^verbatim>\<open>TypeBase\<close> and \<^verbatim>\<open>Type\<close> is
  missing. A declared result type is "possibly void" (the empty tuple) and a function
  type carries the no-return flag. \<^verbatim>\<open>Type\<close> is a handle on a \<^verbatim>\<open>TypeBase\<close>
  that may be null (\<open>None\<close>), as the default-constructed \<^verbatim>\<open>Type ResTy;\<close> of the
  source is and as its \<^verbatim>\<open>assert(L && ResTy)\<close> tests.
\<close>

datatype TypeBase =
    TupleType "TypeBase list"
  | NominalType string
  | AnyFunctionType (getInput: TypeBase) (getResult: TypeBase) (isNoReturn: bool)

type_synonym Type = "TypeBase option"

fun isVoid :: "TypeBase \<Rightarrow> bool" where
  "isVoid (TupleType []) = True"
| "isVoid _ = False"

text \<open>
  What stops the pass instead of returning: a member call through a null handle
  (\<^verbatim>\<open>ResTy->isVoid()\<close>, \<^verbatim>\<open>getType()->castTo\<close>), the failed \<^verbatim>\<open>cast<>\<close>
  inside \<^verbatim>\<open>castTo<>\<close>, and a failed \<^verbatim>\<open>assert\<close>.
\<close>

datatype error = NullDereference | BadCast | AssertionFailure

text \<open>
  Modelled from the spec: the declaration of \<^verbatim>\<open>castTo\<close> is missing. The type of
  a function declaration is a function type with one no-return flag;
  \<^verbatim>\<open>castTo<AnyFunctionType>()\<close>, a checked downcast, yields that function type or
  stops on any other type; it never yields a null pointer.
\<close>

fun castTo_AnyFunctionType :: "TypeBase \<Rightarrow> error + TypeBase" where
  "castTo_AnyFunctionType (AnyFunctionType i r n) = Inr (AnyFunctionType i r n)"
| "castTo_AnyFunctionType _ = Inl BadCast"

subsection \<open>Syntax tree nodes and locations\<close>

type_synonym SourceLoc = nat

text \<open>
  Modelled from the spec: the declaration of \<^verbatim>\<open>FuncExpr\<close> is missing. A function
  body "exposes the enclosing function's declared result type and no-return flag": it
  answers \<^verbatim>\<open>getResultType(Context)\<close> and \<^verbatim>\<open>getType()\<close>, both with a
  \<^verbatim>\<open>Type\<close> handle; the context argument does not change the answer.
\<close>

record FuncExpr =
  getResultType :: Type
  getType :: Type

text \<open>
  Modelled from the spec: the declarations of the syntax tree and of
  \<^verbatim>\<open>SILLocation\<close> are missing. A location is null or refers to a node "classified
  into exactly one of a closed set": a function expression, a switch statement or any
  other node; each node knows where its source range ends.
\<close>

datatype ASTNode =
    FuncExprNode FuncExpr SourceLoc
  | SwitchStmtNode SourceLoc
  | OtherNode SourceLoc

text \<open>
  A \<^verbatim>\<open>SILLocation\<close> wraps a node or is null; \<^verbatim>\<open>isNull\<close>, \<^verbatim>\<open>is<T>\<close>,
  \<^verbatim>\<open>getAs<T>\<close> and \<^verbatim>\<open>getEndSourceLoc\<close> are its accessors.
\<close>

type_synonym SILLocation = "ASTNode option"

fun isNull :: "SILLocation \<Rightarrow> bool" where
  "isNull None = True"
| "isNull (Some _) = False"

fun is_FuncExpr :: "SILLocation \<Rightarrow> bool" where
  "is_FuncExpr (Some (FuncExprNode _ _)) = True"
| "is_FuncExpr _ = False"

fun is_SwitchStmt :: "SILLocation \<Rightarrow> bool" where
  "is_SwitchStmt (Some (SwitchStmtNode _)) = True"
| "is_SwitchStmt _ = False"

fun getAs_FuncExpr :: "SILLocation \<Rightarrow> FuncExpr option" where
  "getAs_FuncExpr (Some (FuncExprNode FExpr _)) = Some FExpr"
| "getAs_FuncExpr _ = None"

fun getEndSourceLoc :: "ASTNode \<Rightarrow> SourceLoc" where
  "getEndSourceLoc (FuncExprNode _ e) = e"
| "getEndSourceLoc (SwitchStmtNode e) = e"
| "getEndSourceLoc (OtherNode e) = e"

subsection \<open>Instructions, functions, modules\<close>

text \<open>
  Modelled from the spec: the declarations of \<^verbatim>\<open>SILInstruction\<close>,
  \<^verbatim>\<open>SILBasicBlock\<close>, \<^verbatim>\<open>SILFunction\<close> and \<^verbatim>\<open>SILModule\<close> are missing. An
  instruction is "a tagged variant" (\<^verbatim>\<open>dyn_cast\<close> tells which) with an optional
  location; a block is a sequence of instructions, a function has one location and a
  sequence of blocks, a module a sequence of functions and the context of the
  diagnostic engine.
\<close>

datatype SILInstruction =
    UnreachableInst SILLocation
  | ReturnInst SILLocation
  | OtherInst SILLocation

fun getLoc :: "SILInstruction \<Rightarrow> SILLocation" where
  "getLoc (UnreachableInst L) = L"
| "getLoc (ReturnInst L) = L"
| "getLoc (OtherInst L) = L"

type_synonym SILBasicBlock = "SILInstruction list"

record SILFunction =
  getLocation :: SILLocation
  getBlocks :: "SILBasicBlock list"

subsection \<open>Diagnostics\<close>

text \<open>
  Modelled from the spec: the declarations of the diagnostics and of the engine are
  missing. A diagnostic is a kind with its parameters (the result type for
  \<open>missing_return\<close>) and the source position it is anchored at.
\<close>

datatype Diag = missing_return Type | non_exhaustive_switch | return_from_noreturn

type_synonym Diagnostic = "SourceLoc \<times> Diag"

text \<open>The diagnostic engine of the context is the list of what was reported so far.\<close>

record ASTContext =
  Diags :: "Diagnostic list"

record SILModule =
  getFunctions :: "SILFunction list"
  getASTContext :: ASTContext

section \<open>The pass\<close>

definition diagnose :: "ASTContext \<Rightarrow> SourceLoc \<Rightarrow> Diag \<Rightarrow> ASTContext" where
  "diagnose Context loc d = Context\<lparr>Diags := Diags Context @ [(loc, d)]\<rparr>"

text \<open>
  \<^verbatim>\<open>UI->getParent()->getParent()\<close> is the function that holds the instruction; the
  model passes it as \<open>F\<close>. Every function returns the context with the diagnostics it
  pushed, or the reason why it stopped. The checked downcast never yields null, so the
  \<^verbatim>\<open>if (AnyFunctionType *T = ...)\<close> has no other branch.
\<close>

definition diagnoseMissingReturn ::
    "SILFunction \<Rightarrow> SILInstruction \<Rightarrow> ASTContext \<Rightarrow> error + ASTContext" where
  "diagnoseMissingReturn F UI Context =
     (case getAs_FuncExpr (getLocation F) of
        Some FExpr \<Rightarrow>
          (let ResTy = getResultType FExpr in
           case ResTy of
             None \<Rightarrow> Inl NullDereference
           | Some R \<Rightarrow>
               if isVoid R then Inr Context
               else
                 (case getType FExpr of
                    None \<Rightarrow> Inl NullDereference
                  | Some FTy \<Rightarrow>
                      (case castTo_AnyFunctionType FTy of
                         Inl e \<Rightarrow> Inl e
                       | Inr T \<Rightarrow>
                           if isNoReturn T then Inr Context
                           else
                             (let L = getLoc UI in
                              case L of
                                None \<Rightarrow> Inl AssertionFailure
                              | Some N \<Rightarrow>
                                  (case ResTy of
                                     None \<Rightarrow> Inl AssertionFailure
                                   | Some _ \<Rightarrow>
                                       Inr (diagnose Context (getEndSourceLoc N)
                                              (missing_return ResTy)))))))
      | None \<Rightarrow> Inr Context)"

definition diagnoseNonExhaustiveSwitch ::
    "SILInstruction \<Rightarrow> ASTContext \<Rightarrow> error + ASTContext" where
  "diagnoseNonExhaustiveSwitch UI Context =
     (let L = getLoc UI in
      case L of
        None \<Rightarrow> Inl AssertionFailure
      | Some N \<Rightarrow> Inr (diagnose Context (getEndSourceLoc N) non_exhaustive_switch))"

definition diagnoseUnreachable ::
    "SILFunction \<Rightarrow> SILInstruction \<Rightarrow> ASTContext \<Rightarrow> error + ASTContext" where
  "diagnoseUnreachable F I Context =
     (case I of
        UnreachableInst L \<Rightarrow>
          if isNull L then Inr Context
          else if is_FuncExpr L then diagnoseMissingReturn F I Context
          else if is_SwitchStmt L then diagnoseNonExhaustiveSwitch I Context
          else Inr Context
      | _ \<Rightarrow> Inr Context)"

definition diagnoseReturn ::
    "SILFunction \<Rightarrow> SILInstruction \<Rightarrow> ASTContext \<Rightarrow> error + ASTContext" where
  "diagnoseReturn F I Context =
     (case I of
        ReturnInst L \<Rightarrow>
          (case getAs_FuncExpr (getLocation F) of
             Some FExpr \<Rightarrow>
               (case getType FExpr of
                  None \<Rightarrow> Inl NullDereference
                | Some FTy \<Rightarrow>
                    (case castTo_AnyFunctionType FTy of
                       Inl e \<Rightarrow> Inl e
                     | Inr T \<Rightarrow>
                         if isNoReturn T then
                           (case L of
                              Some N \<Rightarrow>
                                Inr (diagnose Context (getEndSourceLoc N) return_from_noreturn)
                            | None \<Rightarrow> Inr Context)
                         else Inr Context))
           | None \<Rightarrow> Inr Context)
      | _ \<Rightarrow> Inr Context)"

text \<open>The body of the innermost loop: both checks, one after the other.\<close>

definition visitInstruction ::
    "SILFunction \<Rightarrow> SILInstruction \<Rightarrow> ASTContext \<Rightarrow> error + ASTContext" where
  "visitInstruction Fn I Context =
     (case diagnoseUnreachable Fn I Context of
        Inl e \<Rightarrow> Inl e
      | Inr Context' \<Rightarrow> diagnoseReturn Fn I Context')"

text \<open>The three nested loops, in the order of the containers.\<close>

fun visitInstructions ::
    "SILFunction \<Rightarrow> SILInstruction list \<Rightarrow> ASTContext \<Rightarrow> error + ASTContext" where
  "visitInstructions Fn [] Context = Inr Context"
| "visitInstructions Fn (I # Is) Context =
     (case visitInstruction Fn I Context of
        Inl e \<Rightarrow> Inl e
      | Inr Context' \<Rightarrow> visitInstructions Fn Is Context')"

fun visitBlocks ::
    "SILFunction \<Rightarrow> SILBasicBlock list \<Rightarrow> ASTContext \<Rightarrow> error + ASTContext" where
  "visitBlocks Fn [] Context = Inr Context"
| "visitBlocks Fn (BB # BBs) Context =
     (case visitInstructions Fn BB Context of
        Inl e \<Rightarrow> Inl e
      | Inr Context' \<Rightarrow> visitBlocks Fn BBs Context')"

fun visitFunctions :: "SILFunction list \<Rightarrow> ASTContext \<Rightarrow> error + ASTContext" where
  "visitFunctions [] Context = Inr Context"
| "visitFunctions (Fn # Fns) Context =
     (case visitBlocks Fn (getBlocks Fn) Context of
        Inl e \<Rightarrow> Inl e
      | Inr Context' \<Rightarrow> visitFunctions Fns Context')"

definition emitSILDataflowDiagnostics :: "SILModule \<Rightarrow> error + ASTContext" where
  "emitSILDataflowDiagnostics M = visitFunctions (getFunctions M) (getASTContext M)"

section \<open>What the pass reports, visit by visit\<close>

text \<open>
  The diagnostics one run of the loop body adds for instruction \<open>I\<close> of function
  \<open>Fn\<close>, read off the loop body started on an empty engine, and whether that run
  returns.
\<close>

definition diagnosticsFor :: "SILFunction \<Rightarrow> SILInstruction \<Rightarrow> Diagnostic list" where
  "diagnosticsFor Fn I =
     (case visitInstruction Fn I \<lparr>Diags = []\<rparr> of Inl _ \<Rightarrow> [] | Inr C \<Rightarrow> Diags C)"

definition completes :: "SILFunction \<Rightarrow> SILInstruction \<Rightarrow> bool" where
  "completes Fn I = (case visitInstruction Fn I \<lparr>Diags = []\<rparr> of Inl _ \<Rightarrow> False | Inr _ \<Rightarrow> True)"

definition visits :: "SILModule \<Rightarrow> (SILFunction \<times> SILInstruction) list" where
  "visits M = concat (map (\<lambda>Fn. map (Pair Fn) (concat (getBlocks Fn))) (getFunctions M))"

definition emitted :: "(SILFunction \<times> SILInstruction) list \<Rightarrow> Diagnostic list" where
  "emitted vs = concat (map (\<lambda>(Fn, I). diagnosticsFor Fn I) vs)"

fun runVisits :: "(SILFunction \<times> SILInstruction) list \<Rightarrow> ASTContext \<Rightarrow> error + ASTContext" where
  "runVisits [] C = Inr C"
| "runVisits ((Fn, I) # vs) C =
     (case visitInstruction Fn I C of Inl e \<Rightarrow> Inl e | Inr C' \<Rightarrow> runVisits vs C')"

text \<open>
  What the declaration of a function says: the function expression at the location of
  \<open>Fn\<close> has a no-return function type, or a void result type. A function whose
  location is not a function expression declares neither.
\<close>

definition declaredNoReturn :: "SILFunction \<Rightarrow> bool" where
  "declaredNoReturn Fn =
     (case getAs_FuncExpr (getLocation Fn) of
        Some FExpr \<Rightarrow>
          (case getType FExpr of
             Some (AnyFunctionType i r n) \<Rightarrow> n
           | _ \<Rightarrow> False)
      | None \<Rightarrow> False)"

definition declaredVoid :: "SILFunction \<Rightarrow> bool" where
  "declaredVoid Fn =
     (case getAs_FuncExpr (getLocation Fn) of
        Some FExpr \<Rightarrow>
          (case getResultType FExpr of Some R \<Rightarrow> isVoid R | None \<Rightarrow> False)
      | None \<Rightarrow> False)"

text \<open>
  A module up to the order of its functions, of the blocks in each function and of the
  instructions in each block; \<open>work\<close> is the multiset of (function location,
  instruction) pairs behind a list of visits.
\<close>

definition shape ::
    "SILModule \<Rightarrow> (SILLocation \<times> SILInstruction multiset multiset) multiset" where
  "shape M =
     image_mset (\<lambda>Fn. (getLocation Fn, image_mset mset (mset (getBlocks Fn))))
       (mset (getFunctions M))"

definition atLocation :: "SILLocation \<Rightarrow> SILFunction" where
  "atLocation l = \<lparr>getLocation = l, getBlocks = []\<rparr>"

definition work :: "(SILFunction \<times> SILInstruction) list \<Rightarrow> (SILLocation \<times> SILInstruction) multiset" where
  "work vs = image_mset (\<lambda>(Fn, I). (getLocation Fn, I)) (mset vs)"

section \<open>Sample modules\<close>

definition IntTy :: TypeBase where
  "IntTy = NominalType ''Int''"

definition VoidTy :: TypeBase where
  "VoidTy = TupleType []"

definition intFunc :: FuncExpr where
  "intFunc = \<lparr>getResultType = Some IntTy, getType = Some (AnyFunctionType VoidTy IntTy False)\<rparr>"

definition voidFunc :: FuncExpr where
  "voidFunc = \<lparr>getResultType = Some VoidTy, getType = Some (AnyFunctionType VoidTy VoidTy False)\<rparr>"

definition neverFunc :: FuncExpr where
  "neverFunc = \<lparr>getResultType = Some IntTy, getType = Some (AnyFunctionType VoidTy IntTy True)\<rparr>"

definition sampleFunction :: "SILLocation \<Rightarrow> SILBasicBlock list \<Rightarrow> SILFunction" where
  "sampleFunction l BBs = \<lparr>getLocation = l, getBlocks = BBs\<rparr>"

definition sampleModule :: "SILFunction list \<Rightarrow> SILModule" where
  "sampleModule Fns = \<lparr>getFunctions = Fns, getASTContext = \<lparr>Diags = []\<rparr>\<rparr>"

section \<open>The pass appends, visit after visit\<close>

lemma diagnoseUnreachable_appends:
  "diagnoseUnreachable Fn I C =
     (case diagnoseUnreachable Fn I \<lparr>Diags = []\<rparr> of
        Inl e \<Rightarrow> Inl e
      | Inr C0 \<Rightarrow> Inr (C\<lparr>Diags := Diags C @ Diags C0\<rparr>))"
  by (simp add: diagnoseUnreachable_def diagnoseMissingReturn_def
      diagnoseNonExhaustiveSwitch_def diagnose_def Let_def
      split: SILInstruction.split option.split sum.split)

lemma diagnoseReturn_appends:
  "diagnoseReturn Fn I C =
     (case diagnoseReturn Fn I \<lparr>Diags = []\<rparr> of
        Inl e \<Rightarrow> Inl e
      | Inr C0 \<Rightarrow> Inr (C\<lparr>Diags := Diags C @ Diags C0\<rparr>))"
  by (simp add: diagnoseReturn_def diagnose_def
      split: SILInstruction.split option.split sum.split)

lemma visitInstruction_appends:
  "visitInstruction Fn I C =
     (case visitInstruction Fn I \<lparr>Diags = []\<rparr> of
        Inl e \<Rightarrow> Inl e
      | Inr C0 \<Rightarrow> Inr (C\<lparr>Diags := Diags C @ Diags C0\<rparr>))"
proof (cases "diagnoseUnreachable Fn I \<lparr>Diags = []\<rparr>")
  case (Inl e)
  then have "diagnoseUnreachable Fn I C = Inl e"
    using diagnoseUnreachable_appends [of Fn I C] by simp
  with Inl show ?thesis by (simp add: visitInstruction_def)
next
  case (Inr C1)
  then have u: "diagnoseUnreachable Fn I C = Inr (C\<lparr>Diags := Diags C @ Diags C1\<rparr>)"
    using diagnoseUnreachable_appends [of Fn I C] by simp
  have c1: "C1 = \<lparr>Diags = [] @ Diags C1\<rparr>" by simp
  show ?thesis
  proof (cases "diagnoseReturn Fn I \<lparr>Diags = []\<rparr>")
    case (Inl e)
    then have "diagnoseReturn Fn I C1 = Inl e"
      and "diagnoseReturn Fn I (C\<lparr>Diags := Diags C @ Diags C1\<rparr>) = Inl e"
      using diagnoseReturn_appends [of Fn I C1]
        diagnoseReturn_appends [of Fn I "C\<lparr>Diags := Diags C @ Diags C1\<rparr>"] by simp_all
    with Inr u show ?thesis by (simp add: visitInstruction_def)
  next
    case (Inr C2)
    then have "diagnoseReturn Fn I C1 = Inr (C1\<lparr>Diags := Diags C1 @ Diags C2\<rparr>)"
      and "diagnoseReturn Fn I (C\<lparr>Diags := Diags C @ Diags C1\<rparr>)
            = Inr (C\<lparr>Diags := (Diags C @ Diags C1) @ Diags C2\<rparr>)"
      using diagnoseReturn_appends [of Fn I C1]
        diagnoseReturn_appends [of Fn I "C\<lparr>Diags := Diags C @ Diags C1\<rparr>"] by simp_all
    with \<open>diagnoseUnreachable Fn I \<lparr>Diags = []\<rparr> = Inr C1\<close> u show ?thesis
      by (simp add: visitInstruction_def)
  qed
qed

lemma visitInstruction_completes:
  "completes Fn I \<Longrightarrow>
     visitInstruction Fn I C = Inr (C\<lparr>Diags := Diags C @ diagnosticsFor Fn I\<rparr>)"
  using visitInstruction_appends [of Fn I C]
  by (simp add: completes_def diagnosticsFor_def split: sum.splits)

lemma visitInstruction_stops:
  "\<not> completes Fn I \<Longrightarrow> \<exists>e. visitInstruction Fn I C = Inl e"
  using visitInstruction_appends [of Fn I C]
  by (simp add: completes_def split: sum.splits)

lemma runVisits_completes:
  "\<forall>(Fn, I) \<in> set vs. completes Fn I \<Longrightarrow>
     runVisits vs C = Inr (C\<lparr>Diags := Diags C @ emitted vs\<rparr>)"
proof (induction vs arbitrary: C)
  case Nil
  then show ?case by (simp add: emitted_def)
next
  case (Cons v vs)
  obtain Fn I where v: "v = (Fn, I)" by (cases v)
  with Cons.prems have "completes Fn I" by simp
  then have "visitInstruction Fn I C = Inr (C\<lparr>Diags := Diags C @ diagnosticsFor Fn I\<rparr>)"
    by (rule visitInstruction_completes)
  moreover have "runVisits vs (C\<lparr>Diags := Diags C @ diagnosticsFor Fn I\<rparr>)
      = Inr (C\<lparr>Diags := (Diags C @ diagnosticsFor Fn I) @ emitted vs\<rparr>)"
    using Cons.IH [of "C\<lparr>Diags := Diags C @ diagnosticsFor Fn I\<rparr>"] Cons.prems by simp
  ultimately show ?case by (simp add: v emitted_def)
qed

lemma runVisits_stops:
  "\<not> (\<forall>(Fn, I) \<in> set vs. completes Fn I) \<Longrightarrow> \<exists>e. runVisits vs C = Inl e"
proof (induction vs arbitrary: C)
  case Nil
  then show ?case by simp
next
  case (Cons v vs)
  obtain Fn I where v: "v = (Fn, I)" by (cases v)
  show ?case
  proof (cases "completes Fn I")
    case True
    then have s: "visitInstruction Fn I C = Inr (C\<lparr>Diags := Diags C @ diagnosticsFor Fn I\<rparr>)"
      by (rule visitInstruction_completes)
    from True Cons.prems v have "\<not> (\<forall>(Fn, I) \<in> set vs. completes Fn I)" by simp
    from Cons.IH [OF this] s show ?thesis by (simp add: v)
  next
    case False
    from visitInstruction_stops [OF this, of C] show ?thesis by (auto simp: v)
  qed
qed

lemma runVisits_append:
  "runVisits (vs @ ws) C =
     (case runVisits vs C of Inl e \<Rightarrow> Inl e | Inr C' \<Rightarrow> runVisits ws C')"
  by (induction vs arbitrary: C) (auto split: sum.splits)

lemma visitInstructions_run:
  "visitInstructions Fn Is C = runVisits (map (Pair Fn) Is) C"
  by (induction Is arbitrary: C) (auto split: sum.splits)

lemma visitBlocks_run:
  "visitBlocks Fn BBs C = runVisits (map (Pair Fn) (concat BBs)) C"
  by (induction BBs arbitrary: C)
     (auto simp: visitInstructions_run runVisits_append split: sum.splits)

lemma visitFunctions_run:
  "visitFunctions Fns C =
     runVisits (concat (map (\<lambda>Fn. map (Pair Fn) (concat (getBlocks Fn))) Fns)) C"
  by (induction Fns arbitrary: C)
     (auto simp: visitBlocks_run runVisits_append split: sum.splits)

lemma emit_run:
  "emitSILDataflowDiagnostics M = runVisits (visits M) (getASTContext M)"
  by (simp add: emitSILDataflowDiagnostics_def visits_def visitFunctions_run)

lemma emit_Inr_iff:
  "emitSILDataflowDiagnostics M = Inr C' \<longleftrightarrow>
     (\<forall>(Fn, I) \<in> set (visits M). completes Fn I) \<and>
     C' = (getASTContext M)\<lparr>Diags := Diags (getASTContext M) @ emitted (visits M)\<rparr>"
proof (cases "\<forall>(Fn, I) \<in> set (visits M). completes Fn I")
  case True
  from runVisits_completes [OF this, of "getASTContext M"] True show ?thesis
    by (auto simp: emit_run)
next
  case False
  from runVisits_stops [OF this, of "getASTContext M"] False show ?thesis
    by (auto simp: emit_run)
qed

lemma emitted_append: "emitted (vs @ ws) = emitted vs @ emitted ws"
  by (simp add: emitted_def)

lemma emitted_Cons: "emitted ((Fn, I) # vs) = diagnosticsFor Fn I @ emitted vs"
  by (simp add: emitted_def)

section \<open>One visit\<close>

lemma visitInstruction_Unreachable:
  "visitInstruction Fn (UnreachableInst L) C = diagnoseUnreachable Fn (UnreachableInst L) C"
  by (simp add: visitInstruction_def diagnoseReturn_def split: sum.split)

lemma visitInstruction_Return:
  "visitInstruction Fn (ReturnInst L) C = diagnoseReturn Fn (ReturnInst L) C"
  by (simp add: visitInstruction_def diagnoseUnreachable_def)

lemma diagnosticsFor_eq:
  assumes "visitInstruction Fn I C = Inr (C\<lparr>Diags := Diags C @ ds\<rparr>)"
  shows "diagnosticsFor Fn I = ds" and "completes Fn I"
proof -
  from assms visitInstruction_appends [of Fn I C]
  obtain C0 where c0: "visitInstruction Fn I \<lparr>Diags = []\<rparr> = Inr C0"
    and eq: "C\<lparr>Diags := Diags C @ Diags C0\<rparr> = C\<lparr>Diags := Diags C @ ds\<rparr>"
    by (auto split: sum.splits)
  from eq have "Diags (C\<lparr>Diags := Diags C @ Diags C0\<rparr>) = Diags (C\<lparr>Diags := Diags C @ ds\<rparr>)"
    by (rule arg_cong)
  then have "Diags C0 = ds" by simp
  with c0 show "diagnosticsFor Fn I = ds" by (simp add: diagnosticsFor_def)
  from c0 show "completes Fn I" by (simp add: completes_def)
qed

lemma emit_split:
  assumes "visits M = before @ (Fn, I) # after"
    and "emitSILDataflowDiagnostics M = Inr C'"
  shows "Diags C' = Diags (getASTContext M) @ emitted before @ diagnosticsFor Fn I @ emitted after"
  using assms by (simp add: emit_Inr_iff emitted_append emitted_Cons)

lemma castTo_AnyFunctionType_eq:
  "castTo_AnyFunctionType T = (case T of AnyFunctionType i r n \<Rightarrow> Inr T | _ \<Rightarrow> Inl BadCast)"
  by (cases T) simp_all

lemma diagnosticsFor_Unreachable:
  "diagnosticsFor Fn (UnreachableInst L) =
     (case diagnoseUnreachable Fn (UnreachableInst L) \<lparr>Diags = []\<rparr> of
        Inl _ \<Rightarrow> [] | Inr C \<Rightarrow> Diags C)"
  by (simp add: diagnosticsFor_def visitInstruction_Unreachable)

lemma diagnosticsFor_Return:
  "diagnosticsFor Fn (ReturnInst L) =
     (case L of
        Some N \<Rightarrow> if declaredNoReturn Fn then [(getEndSourceLoc N, return_from_noreturn)] else []
      | None \<Rightarrow> [])"
  by (simp add: diagnosticsFor_def visitInstruction_Return diagnoseReturn_def
      declaredNoReturn_def diagnose_def castTo_AnyFunctionType_eq
      split: option.split TypeBase.split)

lemma diagnosticsFor_Other: "diagnosticsFor Fn (OtherInst L) = []"
  by (simp add: diagnosticsFor_def visitInstruction_def diagnoseUnreachable_def
      diagnoseReturn_def)

lemma missing_return_origin:
  assumes "(p, missing_return T) \<in> set (diagnosticsFor Fn I)"
  shows "\<exists>L FExpr e R i r.
           I = UnreachableInst L \<and> is_FuncExpr L \<and>
           getLocation Fn = Some (FuncExprNode FExpr e) \<and>
           getResultType FExpr = Some R \<and> T = Some R \<and> \<not> isVoid R \<and>
           getType FExpr = Some (AnyFunctionType i r False)"
proof (cases I)
  case (UnreachableInst L)
  have sw: "(p, missing_return T) \<notin> set (case diagnoseNonExhaustiveSwitch I \<lparr>Diags = []\<rparr> of
      Inl _ \<Rightarrow> [] | Inr C \<Rightarrow> Diags C)"
    by (simp add: diagnoseNonExhaustiveSwitch_def diagnose_def Let_def split: option.split)
  from assms UnreachableInst sw
  have fe: "is_FuncExpr L"
    and mr: "(p, missing_return T) \<in> set (case diagnoseMissingReturn Fn I \<lparr>Diags = []\<rparr> of
      Inl _ \<Rightarrow> [] | Inr C \<Rightarrow> Diags C)"
    by (auto simp: diagnosticsFor_Unreachable diagnoseUnreachable_def split: if_splits)
  from mr obtain FExpr e where loc: "getLocation Fn = Some (FuncExprNode FExpr e)"
    by (cases "getLocation Fn" rule: getAs_FuncExpr.cases)
       (simp_all add: diagnoseMissingReturn_def Let_def)
  from mr loc obtain R where R: "getResultType FExpr = Some R"
    by (cases "getResultType FExpr") (simp_all add: diagnoseMissingReturn_def Let_def)
  from mr loc R have nv: "\<not> isVoid R"
    by (auto simp: diagnoseMissingReturn_def Let_def)
  from mr loc R nv obtain FTy where FTy: "getType FExpr = Some FTy"
    by (cases "getType FExpr") (simp_all add: diagnoseMissingReturn_def Let_def)
  from mr loc R nv FTy obtain i r where f: "FTy = AnyFunctionType i r False"
    by (cases FTy) (auto simp: diagnoseMissingReturn_def Let_def split: if_splits)
  from mr loc R nv FTy f have "T = Some R"
    by (auto simp: diagnoseMissingReturn_def diagnose_def Let_def split: option.splits)
  with UnreachableInst fe loc R nv FTy f show ?thesis by simp
next
  case (ReturnInst L)
  with assms show ?thesis
    by (simp add: diagnosticsFor_Return split: option.splits if_splits)
next
  case (OtherInst L)
  with assms show ?thesis by (simp add: diagnosticsFor_Other)
qed

lemma return_from_noreturn_origin:
  assumes "(p, return_from_noreturn) \<in> set (diagnosticsFor Fn I)"
  shows "\<exists>N. I = ReturnInst (Some N) \<and> p = getEndSourceLoc N \<and> declaredNoReturn Fn"
proof (cases I)
  case (UnreachableInst L)
  with assms show ?thesis
    by (auto simp: diagnosticsFor_Unreachable diagnoseUnreachable_def
        diagnoseMissingReturn_def diagnoseNonExhaustiveSwitch_def diagnose_def Let_def
        split: if_splits option.splits sum.splits)
next
  case (ReturnInst L)
  with assms show ?thesis
    by (auto simp: diagnosticsFor_Return split: option.splits if_splits)
next
  case (OtherInst L)
  with assms show ?thesis by (simp add: diagnosticsFor_Other)
qed

lemma declaredNoReturn_is_FuncExpr: "declaredNoReturn Fn \<Longrightarrow> is_FuncExpr (getLocation Fn)"
  by (cases "getLocation Fn" rule: is_FuncExpr.cases) (simp_all add: declaredNoReturn_def)

lemma visitInstruction_Inr_Diags:
  assumes "visitInstruction Fn I C = Inr C'"
  shows "Diags C' = Diags C @ diagnosticsFor Fn I"
  using assms visitInstruction_appends [of Fn I C]
  by (auto simp: diagnosticsFor_def split: sum.splits)

lemma visitInstruction_no_assert: "visitInstruction Fn I C \<noteq> Inl AssertionFailure"
proof -
  have u: "diagnoseUnreachable Fn I C \<noteq> Inl AssertionFailure" for C
    by (cases I; cases "getLoc I" rule: is_FuncExpr.cases)
       (auto simp: diagnoseUnreachable_def diagnoseMissingReturn_def
          diagnoseNonExhaustiveSwitch_def castTo_AnyFunctionType_eq Let_def
          split: option.splits TypeBase.splits)
  have r: "diagnoseReturn Fn I C \<noteq> Inl AssertionFailure" for C
    by (auto simp: diagnoseReturn_def castTo_AnyFunctionType_eq
          split: SILInstruction.splits option.splits TypeBase.splits)
  from u r show ?thesis
    by (auto simp: visitInstruction_def split: sum.splits)
qed

lemma runVisits_no_assert: "runVisits vs C \<noteq> Inl AssertionFailure"
proof (induction vs arbitrary: C)
  case Nil
  show ?case by simp
next
  case (Cons v vs)
  obtain Fn I where v: "v = (Fn, I)" by (cases v)
  from Cons.IH visitInstruction_no_assert [of Fn I C] show ?case
    by (auto simp: v split: sum.splits)
qed

section \<open>Reordering a module\<close>

lemma visitInstruction_location:
  assumes "getLocation Fn = getLocation Fn'"
  shows "visitInstruction Fn I C = visitInstruction Fn' I C"
proof -
  have m: "diagnoseMissingReturn Fn = diagnoseMissingReturn Fn'"
    unfolding diagnoseMissingReturn_def assms by (rule refl)
  have r: "diagnoseReturn Fn = diagnoseReturn Fn'"
    unfolding diagnoseReturn_def assms by (rule refl)
  have u: "diagnoseUnreachable Fn = diagnoseUnreachable Fn'"
    unfolding diagnoseUnreachable_def m by (rule refl)
  show ?thesis unfolding visitInstruction_def r u by (rule refl)
qed

lemma diagnosticsFor_atLocation:
  "diagnosticsFor Fn I = diagnosticsFor (atLocation (getLocation Fn)) I"
  using visitInstruction_location [of Fn "atLocation (getLocation Fn)" I]
  by (simp add: diagnosticsFor_def atLocation_def)

lemma completes_atLocation:
  "completes Fn I = completes (atLocation (getLocation Fn)) I"
  using visitInstruction_location [of Fn "atLocation (getLocation Fn)" I]
  by (simp add: completes_def atLocation_def)

lemma mset_emitted:
  "mset (emitted vs) =
     \<Sum>\<^sub># (image_mset (\<lambda>(l, I). mset (diagnosticsFor (atLocation l) I)) (work vs))"
proof (induction vs)
  case Nil
  show ?case by (simp add: emitted_def work_def)
next
  case (Cons v vs)
  obtain Fn I where v: "v = (Fn, I)" by (cases v)
  have "mset (emitted (v # vs)) = mset (diagnosticsFor Fn I) + mset (emitted vs)"
    by (simp add: v emitted_Cons)
  also have "\<dots> = mset (diagnosticsFor (atLocation (getLocation Fn)) I) + mset (emitted vs)"
    using diagnosticsFor_atLocation [of Fn I] by simp
  finally show ?case using Cons.IH by (simp add: v work_def)
qed

lemma all_complete_work:
  "(\<forall>(Fn, I) \<in> set vs. completes Fn I) \<longleftrightarrow>
     (\<forall>(l, I) \<in># work vs. completes (atLocation l) I)"
  using completes_atLocation by (auto simp: work_def)

lemma mset_concat_blocks: "mset (concat BBs) = \<Sum>\<^sub># (image_mset mset (mset BBs))"
  by (induction BBs) simp_all

lemma work_visits:
  "work (visits M) =
     \<Sum>\<^sub># (image_mset (\<lambda>(l, bs). image_mset (Pair l) (\<Sum>\<^sub># bs)) (shape M))"
proof -
  have "work (concat (map (\<lambda>Fn. map (Pair Fn) (concat (getBlocks Fn))) Fns)) =
      \<Sum>\<^sub># (image_mset (\<lambda>(l, bs). image_mset (Pair l) (\<Sum>\<^sub># bs))
        (image_mset (\<lambda>Fn. (getLocation Fn, image_mset mset (mset (getBlocks Fn))))
          (mset Fns)))" for Fns
  proof (induction Fns)
    case Nil
    show ?case by (simp add: work_def)
  next
    case (Cons Fn Fns)
    have "work (map (Pair Fn) (concat (getBlocks Fn))) =
        image_mset (Pair (getLocation Fn)) (\<Sum>\<^sub># (image_mset mset (mset (getBlocks Fn))))"
      by (simp add: work_def mset_concat_blocks [symmetric] multiset.map_comp comp_def)
    moreover have "work (xs @ ys) = work xs + work ys" for xs ys
      by (simp add: work_def)
    ultimately show ?case using Cons.IH by simp
  qed
  then show ?thesis by (simp add: visits_def shape_def)
qed

text \<open>
  The shape is kept by a permutation of the functions, and by a permutation of the blocks
  of a function or of the instructions of a block that keeps the location of the
  function.
\<close>

lemma shape_reorder_functions:
  "mset (getFunctions M') = mset (getFunctions M) \<Longrightarrow> shape M' = shape M"
  by (simp add: shape_def)

lemma shape_reorder_within:
  assumes "getFunctions M' = map f (getFunctions M)"
    and "\<And>Fn. getLocation (f Fn) = getLocation Fn"
    and "\<And>Fn. mset (map mset (getBlocks (f Fn))) = mset (map mset (getBlocks Fn))"
  shows "shape M' = shape M"
proof -
  have "(getLocation (f Fn), image_mset mset (mset (getBlocks (f Fn)))) =
      (getLocation Fn, image_mset mset (mset (getBlocks Fn)))" for Fn
    using assms(2) [of Fn] assms(3) [of Fn] by simp
  then show ?thesis
    by (simp add: shape_def assms(1) multiset.map_comp comp_def)
qed

section \<open>Evaluating the pass on a sample\<close>

lemmas pass_defs = emitSILDataflowDiagnostics_def visitInstruction_def diagnoseUnreachable_def
  diagnoseMissingReturn_def diagnoseNonExhaustiveSwitch_def diagnoseReturn_def diagnose_def

lemmas sample_defs = sampleModule_def sampleFunction_def intFunc_def voidFunc_def neverFunc_def
  IntTy_def VoidTy_def

section \<open>The properties of the specification\<close>

text \<open>
  C1. A function whose declaration has a result type that is not void and a function
  type that is not no-return: an \<^verbatim>\<open>unreachable\<close> of its body whose location is a
  function expression makes the loop body add exactly one \<open>missing_return\<close>, at the
  end of that location, with the declared result type as its argument. In a run of the
  pass over a module that returns, the diagnostics between those of the visits before
  and those of the visits after are exactly this one.
\<close>

theorem missing_return_reported:
  assumes "getLocation Fn = Some (FuncExprNode FExpr e)"
    and "getResultType FExpr = Some R" and "\<not> isVoid R"
    and "getType FExpr = Some (AnyFunctionType i r False)"
    and "UI = UnreachableInst (Some (FuncExprNode G l))"
  shows "visitInstruction Fn UI C = Inr (C\<lparr>Diags := Diags C @ [(l, missing_return (Some R))]\<rparr>)
    \<and> (\<forall>M before after C'.
          visits M = before @ (Fn, UI) # after \<and> emitSILDataflowDiagnostics M = Inr C' \<longrightarrow>
          Diags C' = Diags (getASTContext M) @ emitted before
                       @ [(l, missing_return (Some R))] @ emitted after)"
proof -
  have step: "visitInstruction Fn UI C = Inr (C\<lparr>Diags := Diags C @ [(l, missing_return (Some R))]\<rparr>)"
    for C
    using assms
    by (simp add: visitInstruction_Unreachable diagnoseUnreachable_def
        diagnoseMissingReturn_def diagnose_def)
  from diagnosticsFor_eq(1) [OF step]
  have "diagnosticsFor Fn UI = [(l, missing_return (Some R))]" .
  with step emit_split [of _ _ Fn UI] show ?thesis by auto
qed

theorem missing_return_reported_witness:
  "visitInstruction
     (sampleFunction (Some (FuncExprNode intFunc 40))
        [[OtherInst None, UnreachableInst (Some (FuncExprNode intFunc 40))]])
     (UnreachableInst (Some (FuncExprNode intFunc 40))) \<lparr>Diags = []\<rparr>
     = Inr \<lparr>Diags = [(40, missing_return (Some IntTy))]\<rparr>
   \<and> (\<exists>C'. emitSILDataflowDiagnostics
          (sampleModule [sampleFunction (Some (FuncExprNode intFunc 40))
             [[OtherInst None, UnreachableInst (Some (FuncExprNode intFunc 40))]]]) = Inr C'
        \<and> Diags C' = [(40, missing_return (Some IntTy))])"
proof -
  let ?UI = "UnreachableInst (Some (FuncExprNode intFunc 40))"
  let ?Fn = "sampleFunction (Some (FuncExprNode intFunc 40)) [[OtherInst None, ?UI]]"
  let ?M = "sampleModule [?Fn]"
  have h1: "getLocation ?Fn = Some (FuncExprNode intFunc 40)"
    by (simp add: sampleFunction_def)
  have h2: "getResultType intFunc = Some IntTy" by (simp add: intFunc_def)
  have h3: "\<not> isVoid IntTy" by (simp add: IntTy_def)
  have h4: "getType intFunc = Some (AnyFunctionType VoidTy IntTy False)"
    by (simp add: intFunc_def)
  note T = missing_return_reported [where C = "\<lparr>Diags = []\<rparr>", OF h1 h2 h3 h4 refl]
  have v: "visits ?M = [(?Fn, OtherInst None)] @ (?Fn, ?UI) # []"
    by (simp add: visits_def sampleModule_def sampleFunction_def)
  have e: "emitSILDataflowDiagnostics ?M = Inr \<lparr>Diags = [(40, missing_return (Some IntTy))]\<rparr>"
    by (simp add: pass_defs sample_defs)
  from T [THEN conjunct2, rule_format, OF conjI [OF v e]]
  have "Diags \<lparr>Diags = [(40, missing_return (Some IntTy))]\<rparr> =
      Diags (getASTContext ?M) @ emitted [(?Fn, OtherInst None)]
        @ [(40, missing_return (Some IntTy))] @ emitted []" .
  with e T [THEN conjunct1] show ?thesis by simp
qed

text \<open>
  C2. A function declared with a void result type or declared no-return: no visit of
  an \<^verbatim>\<open>unreachable\<close> of its body adds a \<open>missing_return\<close>, whatever the
  location of the instruction is.
\<close>

theorem void_or_noreturn_never_missing_return:
  assumes "declaredVoid Fn \<or> declaredNoReturn Fn"
    and "UI = UnreachableInst L"
  shows "(\<forall>C C'. visitInstruction Fn UI C = Inr C' \<longrightarrow>
            (\<exists>ds. Diags C' = Diags C @ ds \<and> (\<forall>p T. (p, missing_return T) \<notin> set ds)))
    \<and> (\<forall>M before after C'.
          visits M = before @ (Fn, UI) # after \<and> emitSILDataflowDiagnostics M = Inr C' \<longrightarrow>
          (\<exists>ds. Diags C' = Diags (getASTContext M) @ emitted before @ ds @ emitted after
                \<and> (\<forall>p T. (p, missing_return T) \<notin> set ds)))"
proof -
  have none: "(p, missing_return T) \<notin> set (diagnosticsFor Fn UI)" for p T
  proof
    assume "(p, missing_return T) \<in> set (diagnosticsFor Fn UI)"
    from missing_return_origin [OF this]
    obtain FExpr e R i r where "getLocation Fn = Some (FuncExprNode FExpr e)"
      and "getResultType FExpr = Some R" and "\<not> isVoid R"
      and "getType FExpr = Some (AnyFunctionType i r False)"
      by blast
    then have "\<not> declaredVoid Fn" and "\<not> declaredNoReturn Fn"
      by (simp_all add: declaredVoid_def declaredNoReturn_def)
    with assms(1) show False by simp
  qed
  show ?thesis
  proof (intro conjI allI impI)
    fix C C'
    assume "visitInstruction Fn UI C = Inr C'"
    from visitInstruction_Inr_Diags [OF this] none
    show "\<exists>ds. Diags C' = Diags C @ ds \<and> (\<forall>p T. (p, missing_return T) \<notin> set ds)"
      by blast
  next
    fix M before after C'
    assume "visits M = before @ (Fn, UI) # after \<and> emitSILDataflowDiagnostics M = Inr C'"
    then have "Diags C' = Diags (getASTContext M) @ emitted before
        @ diagnosticsFor Fn UI @ emitted after"
      using emit_split by blast
    with none
    show "\<exists>ds. Diags C' = Diags (getASTContext M) @ emitted before @ ds @ emitted after
                \<and> (\<forall>p T. (p, missing_return T) \<notin> set ds)"
      by blast
  qed
qed

theorem void_or_noreturn_never_missing_return_witness:
  "declaredNoReturn (sampleFunction (Some (FuncExprNode neverFunc 30))
      [[UnreachableInst (Some (FuncExprNode neverFunc 30))]])
   \<and> (\<exists>ds. visitInstruction
          (sampleFunction (Some (FuncExprNode neverFunc 30))
             [[UnreachableInst (Some (FuncExprNode neverFunc 30))]])
          (UnreachableInst (Some (FuncExprNode neverFunc 30))) \<lparr>Diags = []\<rparr>
          = Inr \<lparr>Diags = ds\<rparr>
        \<and> (\<forall>p T. (p, missing_return T) \<notin> set ds))
   \<and> declaredVoid (sampleFunction (Some (FuncExprNode voidFunc 20))
      [[UnreachableInst (Some (FuncExprNode voidFunc 20))]])
   \<and> (\<exists>ds. visitInstruction
          (sampleFunction (Some (FuncExprNode voidFunc 20))
             [[UnreachableInst (Some (FuncExprNode voidFunc 20))]])
          (UnreachableInst (Some (FuncExprNode voidFunc 20))) \<lparr>Diags = []\<rparr>
          = Inr \<lparr>Diags = ds\<rparr>
        \<and> (\<forall>p T. (p, missing_return T) \<notin> set ds))"
proof -
  let ?UI = "UnreachableInst (Some (FuncExprNode neverFunc 30))"
  let ?Fn = "sampleFunction (Some (FuncExprNode neverFunc 30)) [[?UI]]"
  let ?UV = "UnreachableInst (Some (FuncExprNode voidFunc 20))"
  let ?Fv = "sampleFunction (Some (FuncExprNode voidFunc 20)) [[?UV]]"
  have h: "declaredNoReturn ?Fn"
    by (simp add: declaredNoReturn_def sample_defs)
  have e: "visitInstruction ?Fn ?UI \<lparr>Diags = []\<rparr> = Inr \<lparr>Diags = []\<rparr>"
    by (simp add: pass_defs sample_defs)
  from void_or_noreturn_never_missing_return [OF disjI2 [OF h] refl,
      THEN conjunct1, rule_format, OF e]
  obtain ds where "Diags \<lparr>Diags = []\<rparr> = Diags \<lparr>Diags = []\<rparr> @ ds"
    and n: "\<forall>p T. (p, missing_return T) \<notin> set ds"
    by blast
  then have d: "ds = []" by simp
  have hv: "declaredVoid ?Fv"
    by (simp add: declaredVoid_def sample_defs)
  have ev: "visitInstruction ?Fv ?UV \<lparr>Diags = []\<rparr> = Inr \<lparr>Diags = []\<rparr>"
    by (simp add: pass_defs sample_defs)
  from void_or_noreturn_never_missing_return [OF disjI1 [OF hv] refl,
      THEN conjunct1, rule_format, OF ev]
  obtain dv where "Diags \<lparr>Diags = []\<rparr> = Diags \<lparr>Diags = []\<rparr> @ dv"
    and nv: "\<forall>p T. (p, missing_return T) \<notin> set dv"
    by blast
  then have "dv = []" by simp
  with d h e n hv ev nv show ?thesis by simp
qed

text \<open>
  C3. An \<^verbatim>\<open>unreachable\<close> whose location is a switch statement makes the loop body
  add exactly one \<open>non_exhaustive_switch\<close>, at the end of that location, in any
  function \<open>Fn\<close>.
\<close>

theorem non_exhaustive_switch_reported:
  assumes "UI = UnreachableInst L" and "is_SwitchStmt L" and "L = Some N"
  shows "visitInstruction Fn UI C =
           Inr (C\<lparr>Diags := Diags C @ [(getEndSourceLoc N, non_exhaustive_switch)]\<rparr>)
    \<and> (\<forall>M before after C'.
          visits M = before @ (Fn, UI) # after \<and> emitSILDataflowDiagnostics M = Inr C' \<longrightarrow>
          Diags C' = Diags (getASTContext M) @ emitted before
                       @ [(getEndSourceLoc N, non_exhaustive_switch)] @ emitted after)"
proof -
  from assms obtain l where N: "N = SwitchStmtNode l"
    by (cases N) simp_all
  have step: "visitInstruction Fn UI C =
      Inr (C\<lparr>Diags := Diags C @ [(getEndSourceLoc N, non_exhaustive_switch)]\<rparr>)" for C
    using assms N
    by (simp add: visitInstruction_Unreachable diagnoseUnreachable_def
        diagnoseNonExhaustiveSwitch_def diagnose_def)
  from diagnosticsFor_eq(1) [OF step]
  have "diagnosticsFor Fn UI = [(getEndSourceLoc N, non_exhaustive_switch)]" .
  with step emit_split [of _ _ Fn UI] show ?thesis by auto
qed

theorem non_exhaustive_switch_reported_witness:
  "visitInstruction
     (sampleFunction (Some (OtherNode 3)) [[UnreachableInst (Some (SwitchStmtNode 17))]])
     (UnreachableInst (Some (SwitchStmtNode 17))) \<lparr>Diags = []\<rparr>
     = Inr \<lparr>Diags = [(17, non_exhaustive_switch)]\<rparr>
   \<and> (\<exists>C'. emitSILDataflowDiagnostics
          (sampleModule [sampleFunction (Some (OtherNode 3))
             [[UnreachableInst (Some (SwitchStmtNode 17))]]]) = Inr C'
        \<and> Diags C' = [(17, non_exhaustive_switch)])"
proof -
  let ?UI = "UnreachableInst (Some (SwitchStmtNode 17))"
  let ?Fn = "sampleFunction (Some (OtherNode 3)) [[?UI]]"
  let ?M = "sampleModule [?Fn]"
  have h: "is_SwitchStmt (Some (SwitchStmtNode 17))" by simp
  note T = non_exhaustive_switch_reported
    [where C = "\<lparr>Diags = []\<rparr>" and Fn = ?Fn, OF refl h refl]
  have v: "visits ?M = [] @ (?Fn, ?UI) # []"
    by (simp add: visits_def sampleModule_def sampleFunction_def)
  have e: "emitSILDataflowDiagnostics ?M = Inr \<lparr>Diags = [(17, non_exhaustive_switch)]\<rparr>"
    by (simp add: pass_defs sample_defs)
  from T [THEN conjunct2, rule_format, OF conjI [OF v e]]
  have "Diags \<lparr>Diags = [(17, non_exhaustive_switch)]\<rparr> =
      Diags (getASTContext ?M) @ emitted []
        @ [(getEndSourceLoc (SwitchStmtNode 17), non_exhaustive_switch)] @ emitted []" .
  with e T [THEN conjunct1] show ?thesis by simp
qed

text \<open>
  C4. A \<^verbatim>\<open>return\<close> gets \<open>return_from_noreturn\<close> exactly when the function is
  declared no-return and the location of the instruction is not null: then the loop body
  adds exactly that one diagnostic, at the end of the location; otherwise a visit that
  returns leaves the engine as it was.
\<close>

theorem return_from_noreturn_iff:
  "(declaredNoReturn Fn \<and> L = Some N \<longrightarrow>
      visitInstruction Fn (ReturnInst L) C =
        Inr (C\<lparr>Diags := Diags C @ [(getEndSourceLoc N, return_from_noreturn)]\<rparr>))
   \<and> (\<not> declaredNoReturn Fn \<or> L = None \<longrightarrow>
        (\<forall>C'. visitInstruction Fn (ReturnInst L) C = Inr C' \<longrightarrow> C' = C))
   \<and> (\<forall>M before after C'.
         visits M = before @ (Fn, ReturnInst L) # after \<and>
         emitSILDataflowDiagnostics M = Inr C' \<longrightarrow>
         Diags C' = Diags (getASTContext M) @ emitted before
           @ (case L of
                Some N \<Rightarrow>
                  if declaredNoReturn Fn then [(getEndSourceLoc N, return_from_noreturn)]
                  else []
              | None \<Rightarrow> [])
           @ emitted after)"
proof (intro conjI allI impI)
  assume a: "declaredNoReturn Fn \<and> L = Some N"
  then obtain FExpr e i r where "getLocation Fn = Some (FuncExprNode FExpr e)"
    and "getType FExpr = Some (AnyFunctionType i r True)"
    by (cases "getLocation Fn" rule: getAs_FuncExpr.cases)
       (auto simp: declaredNoReturn_def split: option.splits TypeBase.splits)
  with a show "visitInstruction Fn (ReturnInst L) C =
        Inr (C\<lparr>Diags := Diags C @ [(getEndSourceLoc N, return_from_noreturn)]\<rparr>)"
    by (simp add: visitInstruction_Return diagnoseReturn_def diagnose_def)
next
  fix C'
  assume a: "\<not> declaredNoReturn Fn \<or> L = None"
    and r: "visitInstruction Fn (ReturnInst L) C = Inr C'"
  from a have "diagnosticsFor Fn (ReturnInst L) = []"
    by (auto simp: diagnosticsFor_Return split: option.splits)
  with r visitInstruction_appends [of Fn "ReturnInst L" C] show "C' = C"
    by (auto simp: diagnosticsFor_def split: sum.splits)
next
  fix M before after C'
  assume "visits M = before @ (Fn, ReturnInst L) # after \<and>
         emitSILDataflowDiagnostics M = Inr C'"
  then have "Diags C' = Diags (getASTContext M) @ emitted before
        @ diagnosticsFor Fn (ReturnInst L) @ emitted after"
    using emit_split by blast
  then show "Diags C' = Diags (getASTContext M) @ emitted before
           @ (case L of
                Some N \<Rightarrow>
                  if declaredNoReturn Fn then [(getEndSourceLoc N, return_from_noreturn)]
                  else []
              | None \<Rightarrow> [])
           @ emitted after"
    by (simp only: diagnosticsFor_Return)
qed

theorem return_from_noreturn_iff_witness:
  "visitInstruction
     (sampleFunction (Some (FuncExprNode neverFunc 30)) [[ReturnInst (Some (OtherNode 25))]])
     (ReturnInst (Some (OtherNode 25))) \<lparr>Diags = []\<rparr>
     = Inr \<lparr>Diags = [(25, return_from_noreturn)]\<rparr>
   \<and> visitInstruction
     (sampleFunction (Some (FuncExprNode intFunc 40)) [[ReturnInst (Some (OtherNode 25))]])
     (ReturnInst (Some (OtherNode 25))) \<lparr>Diags = []\<rparr>
     = Inr \<lparr>Diags = []\<rparr>
   \<and> visitInstruction
     (sampleFunction (Some (FuncExprNode neverFunc 30)) [[ReturnInst None]])
     (ReturnInst None) \<lparr>Diags = []\<rparr>
     = Inr \<lparr>Diags = []\<rparr>"
proof -
  let ?never = "sampleFunction (Some (FuncExprNode neverFunc 30)) [[ReturnInst (Some (OtherNode 25))]]"
  let ?int = "sampleFunction (Some (FuncExprNode intFunc 40)) [[ReturnInst (Some (OtherNode 25))]]"
  let ?never' = "sampleFunction (Some (FuncExprNode neverFunc 30)) [[ReturnInst None]]"
  have h1: "declaredNoReturn ?never \<and> Some (OtherNode 25) = Some (OtherNode 25)"
    by (simp add: declaredNoReturn_def sample_defs)
  from return_from_noreturn_iff
    [where Fn = ?never and L = "Some (OtherNode 25)" and N = "OtherNode 25"
       and C = "\<lparr>Diags = []\<rparr>", THEN conjunct1, rule_format, OF h1]
  have a: "visitInstruction ?never (ReturnInst (Some (OtherNode 25))) \<lparr>Diags = []\<rparr>
      = Inr \<lparr>Diags = [(25, return_from_noreturn)]\<rparr>" by simp
  have h2: "\<not> declaredNoReturn ?int \<or> Some (OtherNode 25) = None"
    by (simp add: declaredNoReturn_def sample_defs)
  obtain C' where e2: "visitInstruction ?int (ReturnInst (Some (OtherNode 25))) \<lparr>Diags = []\<rparr>
      = Inr C'"
    by (simp add: pass_defs sample_defs)
  from return_from_noreturn_iff
    [where Fn = ?int and L = "Some (OtherNode 25)" and C = "\<lparr>Diags = []\<rparr>",
       THEN conjunct2, THEN conjunct1, rule_format, OF h2 e2]
  have b: "C' = \<lparr>Diags = []\<rparr>" .
  have h3: "\<not> declaredNoReturn ?never' \<or> (None :: SILLocation) = None" by simp
  obtain C'' where e3: "visitInstruction ?never' (ReturnInst None) \<lparr>Diags = []\<rparr> = Inr C''"
    by (simp add: pass_defs sample_defs)
  from return_from_noreturn_iff
    [where Fn = ?never' and L = None and C = "\<lparr>Diags = []\<rparr>",
       THEN conjunct2, THEN conjunct1, rule_format, OF h3 e3]
  have c: "C'' = \<lparr>Diags = []\<rparr>" .
  from a b c e2 e3 show ?thesis by simp
qed

text \<open>
  C5. An \<^verbatim>\<open>unreachable\<close> with a null location adds no diagnostic.
\<close>

theorem synthetic_unreachable_silent:
  assumes "UI = UnreachableInst L" and "isNull L"
  shows "visitInstruction Fn UI C = Inr C
    \<and> (\<forall>M before after C'.
          visits M = before @ (Fn, UI) # after \<and> emitSILDataflowDiagnostics M = Inr C' \<longrightarrow>
          Diags C' = Diags (getASTContext M) @ emitted before @ emitted after)"
proof -
  have step: "visitInstruction Fn UI C = Inr C" for C
    using assms by (simp add: visitInstruction_Unreachable diagnoseUnreachable_def)
  then have "visitInstruction Fn UI C = Inr (C\<lparr>Diags := Diags C @ []\<rparr>)" for C by simp
  from diagnosticsFor_eq(1) [OF this]
  have "diagnosticsFor Fn UI = []" .
  with step emit_split [of _ _ Fn UI] show ?thesis by auto
qed

theorem synthetic_unreachable_silent_witness:
  "visitInstruction
     (sampleFunction (Some (FuncExprNode intFunc 40)) [[UnreachableInst None]])
     (UnreachableInst None) \<lparr>Diags = []\<rparr> = Inr \<lparr>Diags = []\<rparr>"
proof -
  have h: "isNull None" by simp
  from synthetic_unreachable_silent [OF refl h, THEN conjunct1]
  show ?thesis .
qed

text \<open>
  C6. An \<^verbatim>\<open>unreachable\<close> whose location is not null and is neither a function
  expression nor a switch statement adds no diagnostic.
\<close>

theorem unknown_unreachable_silent:
  assumes "UI = UnreachableInst L"
    and "\<not> isNull L" and "\<not> is_FuncExpr L" and "\<not> is_SwitchStmt L"
  shows "visitInstruction Fn UI C = Inr C
    \<and> (\<forall>M before after C'.
          visits M = before @ (Fn, UI) # after \<and> emitSILDataflowDiagnostics M = Inr C' \<longrightarrow>
          Diags C' = Diags (getASTContext M) @ emitted before @ emitted after)"
proof -
  have step: "visitInstruction Fn UI C = Inr C" for C
    using assms by (simp add: visitInstruction_Unreachable diagnoseUnreachable_def)
  then have "visitInstruction Fn UI C = Inr (C\<lparr>Diags := Diags C @ []\<rparr>)" for C by simp
  from diagnosticsFor_eq(1) [OF this]
  have "diagnosticsFor Fn UI = []" .
  with step emit_split [of _ _ Fn UI] show ?thesis by auto
qed

theorem unknown_unreachable_silent_witness:
  "visitInstruction
     (sampleFunction (Some (FuncExprNode intFunc 40)) [[UnreachableInst (Some (OtherNode 9))]])
     (UnreachableInst (Some (OtherNode 9))) \<lparr>Diags = []\<rparr> = Inr \<lparr>Diags = []\<rparr>"
proof -
  have h1: "\<not> isNull (Some (OtherNode 9))"
    and h2: "\<not> is_FuncExpr (Some (OtherNode 9))"
    and h3: "\<not> is_SwitchStmt (Some (OtherNode 9))" by simp_all
  from unknown_unreachable_silent [OF refl h1 h2 h3, THEN conjunct1]
  show ?thesis .
qed

text \<open>
  C7. Two modules that differ only in the order of their functions, of the blocks in a
  function and of the instructions in a block (two traversal orders of one module): if
  the pass returns on one it returns on the other, and the diagnostics added are the
  same as multisets.
\<close>

theorem diagnostics_independent_of_traversal_order:
  assumes "shape M' = shape M"
    and "emitSILDataflowDiagnostics M = Inr C"
  shows "\<exists>C' ds ds'. emitSILDataflowDiagnostics M' = Inr C' \<and>
           Diags C = Diags (getASTContext M) @ ds \<and>
           Diags C' = Diags (getASTContext M') @ ds' \<and>
           mset ds' = mset ds"
proof -
  from assms(1) have w: "work (visits M') = work (visits M)"
    by (simp add: work_visits)
  from assms(2) have ok: "\<forall>(Fn, I) \<in> set (visits M). completes Fn I"
    and d: "Diags C = Diags (getASTContext M) @ emitted (visits M)"
    by (simp_all add: emit_Inr_iff)
  from ok w have ok': "\<forall>(Fn, I) \<in> set (visits M'). completes Fn I"
    by (simp only: all_complete_work)
  let ?C' = "(getASTContext M')\<lparr>Diags := Diags (getASTContext M') @ emitted (visits M')\<rparr>"
  from ok' have e: "emitSILDataflowDiagnostics M' = Inr ?C'"
    by (simp add: emit_Inr_iff)
  have m: "mset (emitted (visits M')) = mset (emitted (visits M))"
    by (simp only: mset_emitted w)
  have d': "Diags ?C' = Diags (getASTContext M') @ emitted (visits M')" by simp
  from e d d' m show ?thesis by blast
qed

theorem diagnostics_independent_of_traversal_order_witness:
  "\<exists>C C'.
     emitSILDataflowDiagnostics
       (sampleModule
          [sampleFunction (Some (FuncExprNode intFunc 40))
             [[OtherInst None, UnreachableInst (Some (SwitchStmtNode 17))],
              [UnreachableInst (Some (FuncExprNode intFunc 40))]],
           sampleFunction (Some (FuncExprNode neverFunc 30))
             [[ReturnInst (Some (OtherNode 25))]]]) = Inr C
   \<and> emitSILDataflowDiagnostics
       (sampleModule
          [sampleFunction (Some (FuncExprNode neverFunc 30))
             [[ReturnInst (Some (OtherNode 25))]],
           sampleFunction (Some (FuncExprNode intFunc 40))
             [[UnreachableInst (Some (FuncExprNode intFunc 40))],
              [UnreachableInst (Some (SwitchStmtNode 17)), OtherInst None]]]) = Inr C'
   \<and> Diags C = [(17, non_exhaustive_switch), (40, missing_return (Some IntTy)),
        (25, return_from_noreturn)]
   \<and> mset (Diags C') = mset (Diags C)"
proof -
  let ?M = "sampleModule
          [sampleFunction (Some (FuncExprNode intFunc 40))
             [[OtherInst None, UnreachableInst (Some (SwitchStmtNode 17))],
              [UnreachableInst (Some (FuncExprNode intFunc 40))]],
           sampleFunction (Some (FuncExprNode neverFunc 30))
             [[ReturnInst (Some (OtherNode 25))]]]"
  let ?M' = "sampleModule
          [sampleFunction (Some (FuncExprNode neverFunc 30))
             [[ReturnInst (Some (OtherNode 25))]],
           sampleFunction (Some (FuncExprNode intFunc 40))
             [[UnreachableInst (Some (FuncExprNode intFunc 40))],
              [UnreachableInst (Some (SwitchStmtNode 17)), OtherInst None]]]"
  have s: "shape ?M' = shape ?M"
    by (simp add: shape_def sampleModule_def sampleFunction_def add_mset_commute)
  have e: "emitSILDataflowDiagnostics ?M = Inr \<lparr>Diags =
      [(17, non_exhaustive_switch), (40, missing_return (Some IntTy)),
        (25, return_from_noreturn)]\<rparr>"
    by (simp add: pass_defs sample_defs)
  from diagnostics_independent_of_traversal_order [OF s e]
  obtain C' ds ds' where e': "emitSILDataflowDiagnostics ?M' = Inr C'"
    and "Diags \<lparr>Diags = [(17, non_exhaustive_switch), (40, missing_return (Some IntTy)),
        (25, return_from_noreturn)]\<rparr> = Diags (getASTContext ?M) @ ds"
    and "Diags C' = Diags (getASTContext ?M') @ ds'"
    and "mset ds' = mset ds"
    by blast
  then have "mset (Diags C') = mset [(17, non_exhaustive_switch),
      (40, missing_return (Some IntTy)), (25, return_from_noreturn)]"
    by (simp add: sampleModule_def)
  with e e' show ?thesis by simp
qed

text \<open>
  C8. The pass never stops at an assertion, and every \<open>missing_return\<close> it adds
  carries a type handle that is not null and a type that is not void.
\<close>

theorem missing_return_carries_nonvoid_type:
  "emitSILDataflowDiagnostics M \<noteq> Inl AssertionFailure
   \<and> visitInstruction Fn I C \<noteq> Inl AssertionFailure
   \<and> (\<forall>C'. emitSILDataflowDiagnostics M = Inr C' \<longrightarrow>
        (\<exists>ds. Diags C' = Diags (getASTContext M) @ ds \<and>
              (\<forall>p T. (p, missing_return T) \<in> set ds \<longrightarrow> (\<exists>R. T = Some R \<and> \<not> isVoid R))))"
proof (intro conjI allI impI)
  show "emitSILDataflowDiagnostics M \<noteq> Inl AssertionFailure"
    by (simp add: emit_run runVisits_no_assert)
  show "visitInstruction Fn I C \<noteq> Inl AssertionFailure"
    by (rule visitInstruction_no_assert)
next
  fix C'
  assume "emitSILDataflowDiagnostics M = Inr C'"
  then have d: "Diags C' = Diags (getASTContext M) @ emitted (visits M)"
    by (simp add: emit_Inr_iff)
  have "\<exists>R. T = Some R \<and> \<not> isVoid R" if "(p, missing_return T) \<in> set (emitted (visits M))"
    for p T
  proof -
    from that obtain G J where "(p, missing_return T) \<in> set (diagnosticsFor G J)"
      by (auto simp: emitted_def)
    from missing_return_origin [OF this] show ?thesis by blast
  qed
  with d show "\<exists>ds. Diags C' = Diags (getASTContext M) @ ds \<and>
              (\<forall>p T. (p, missing_return T) \<in> set ds \<longrightarrow> (\<exists>R. T = Some R \<and> \<not> isVoid R))"
    by blast
qed

theorem missing_return_carries_nonvoid_type_witness:
  "\<exists>C'. emitSILDataflowDiagnostics
          (sampleModule [sampleFunction (Some (FuncExprNode intFunc 40))
             [[OtherInst None, UnreachableInst (Some (FuncExprNode intFunc 40))]]]) = Inr C'
     \<and> (40, missing_return (Some IntTy)) \<in> set (Diags C')
     \<and> (\<forall>p T. (p, missing_return T) \<in> set (Diags C') \<longrightarrow> (\<exists>R. T = Some R \<and> \<not> isVoid R))"
proof -
  let ?M = "sampleModule [sampleFunction (Some (FuncExprNode intFunc 40))
             [[OtherInst None, UnreachableInst (Some (FuncExprNode intFunc 40))]]]"
  have e: "emitSILDataflowDiagnostics ?M = Inr \<lparr>Diags = [(40, missing_return (Some IntTy))]\<rparr>"
    by (simp add: pass_defs sample_defs)
  from missing_return_carries_nonvoid_type
    [where M = ?M, THEN conjunct2, THEN conjunct2, rule_format, OF e]
  obtain ds where "Diags \<lparr>Diags = [(40, missing_return (Some IntTy))]\<rparr>
      = Diags (getASTContext ?M) @ ds"
    and t: "\<forall>p T. (p, missing_return T) \<in> set ds \<longrightarrow> (\<exists>R. T = Some R \<and> \<not> isVoid R)"
    by blast
  then have "ds = [(40, missing_return (Some IntTy))]"
    by (simp add: sampleModule_def)
  with e t show ?thesis by simp
qed

text \<open>
  C9. A function whose own location is not a function expression: the visit of an
  \<^verbatim>\<open>unreachable\<close> of its body returns and adds no \<open>missing_return\<close>, and adds
  nothing at all when the location of the instruction is a function expression.
\<close>

theorem closure_never_missing_return:
  assumes "\<not> is_FuncExpr (getLocation Fn)" and "UI = UnreachableInst L"
  shows "\<exists>ds. visitInstruction Fn UI C = Inr (C\<lparr>Diags := Diags C @ ds\<rparr>)
    \<and> (\<forall>p T. (p, missing_return T) \<notin> set ds)
    \<and> (is_FuncExpr L \<longrightarrow> ds = [])
    \<and> (\<forall>M before after C'.
          visits M = before @ (Fn, UI) # after \<and> emitSILDataflowDiagnostics M = Inr C' \<longrightarrow>
          Diags C' = Diags (getASTContext M) @ emitted before @ ds @ emitted after)"
proof -
  from assms(1) have nf: "getAs_FuncExpr (getLocation Fn) = None"
    by (cases "getLocation Fn" rule: getAs_FuncExpr.cases) simp_all
  define ds where
    "ds = (case L of Some (SwitchStmtNode l) \<Rightarrow> [(l, non_exhaustive_switch)] | _ \<Rightarrow> [])"
  have step: "visitInstruction Fn UI C = Inr (C\<lparr>Diags := Diags C @ ds\<rparr>)" for C
    using assms(2) nf
    by (cases L rule: is_SwitchStmt.cases)
       (simp_all add: ds_def visitInstruction_Unreachable diagnoseUnreachable_def
          diagnoseMissingReturn_def diagnoseNonExhaustiveSwitch_def diagnose_def)
  from diagnosticsFor_eq(1) [OF step] have d: "diagnosticsFor Fn UI = ds" .
  have a: "is_FuncExpr L \<longrightarrow> ds = []"
    by (cases L rule: is_SwitchStmt.cases) (simp_all add: ds_def)
  have b: "\<forall>p T. (p, missing_return T) \<notin> set ds"
    by (cases L rule: is_SwitchStmt.cases) (simp_all add: ds_def)
  have c: "\<forall>M before after C'.
          visits M = before @ (Fn, UI) # after \<and> emitSILDataflowDiagnostics M = Inr C' \<longrightarrow>
          Diags C' = Diags (getASTContext M) @ emitted before @ ds @ emitted after"
  proof (intro allI impI)
    fix M before after C'
    assume "visits M = before @ (Fn, UI) # after \<and> emitSILDataflowDiagnostics M = Inr C'"
    then have "Diags C' = Diags (getASTContext M) @ emitted before
        @ diagnosticsFor Fn UI @ emitted after"
      using emit_split by blast
    then show "Diags C' = Diags (getASTContext M) @ emitted before @ ds @ emitted after"
      by (simp only: d)
  qed
  show ?thesis
  proof (intro exI conjI)
    show "visitInstruction Fn UI C = Inr (C\<lparr>Diags := Diags C @ ds\<rparr>)" by (rule step)
  qed (rule b a c)+
qed

theorem closure_never_missing_return_witness:
  "visitInstruction
     (sampleFunction (Some (OtherNode 3)) [[UnreachableInst (Some (FuncExprNode intFunc 40))]])
     (UnreachableInst (Some (FuncExprNode intFunc 40))) \<lparr>Diags = []\<rparr> = Inr \<lparr>Diags = []\<rparr>"
proof -
  let ?Fn = "sampleFunction (Some (OtherNode 3)) [[UnreachableInst (Some (FuncExprNode intFunc 40))]]"
  have h: "\<not> is_FuncExpr (getLocation ?Fn)" by (simp add: sampleFunction_def)
  from closure_never_missing_return [where C = "\<lparr>Diags = []\<rparr>", OF h refl]
  obtain ds where "visitInstruction ?Fn (UnreachableInst (Some (FuncExprNode intFunc 40)))
      \<lparr>Diags = []\<rparr> = Inr (\<lparr>Diags = []\<rparr>\<lparr>Diags := Diags \<lparr>Diags = []\<rparr> @ ds\<rparr>)"
    and "is_FuncExpr (Some (FuncExprNode intFunc 40)) \<longrightarrow> ds = []"
    by blast
  then show ?thesis by simp
qed

text \<open>
  C10. A \<^verbatim>\<open>return\<close> in a function whose own location is not a function expression
  adds nothing; and when a visit adds \<open>return_from_noreturn\<close>, the instruction is a
  \<^verbatim>\<open>return\<close> and the location of its function is a function expression.
\<close>

theorem return_from_noreturn_only_in_declared_functions:
  "(\<not> is_FuncExpr (getLocation Fn) \<longrightarrow> visitInstruction Fn (ReturnInst L) C = Inr C)
   \<and> (\<forall>M before after I C'.
         visits M = before @ (Fn, I) # after \<and> emitSILDataflowDiagnostics M = Inr C' \<longrightarrow>
         (\<exists>ds. Diags C' = Diags (getASTContext M) @ emitted before @ ds @ emitted after \<and>
               ((\<exists>p. (p, return_from_noreturn) \<in> set ds) \<longrightarrow>
                  is_FuncExpr (getLocation Fn) \<and> (\<exists>L'. I = ReturnInst L'))))"
proof (intro conjI allI impI)
  assume "\<not> is_FuncExpr (getLocation Fn)"
  then have "getAs_FuncExpr (getLocation Fn) = None"
    by (cases "getLocation Fn" rule: getAs_FuncExpr.cases) simp_all
  then show "visitInstruction Fn (ReturnInst L) C = Inr C"
    by (simp add: visitInstruction_Return diagnoseReturn_def)
next
  fix M before after I C'
  assume "visits M = before @ (Fn, I) # after \<and> emitSILDataflowDiagnostics M = Inr C'"
  then have "Diags C' = Diags (getASTContext M) @ emitted before
        @ diagnosticsFor Fn I @ emitted after"
    using emit_split by blast
  moreover have "is_FuncExpr (getLocation Fn) \<and> (\<exists>L'. I = ReturnInst L')"
    if "\<exists>p. (p, return_from_noreturn) \<in> set (diagnosticsFor Fn I)"
    using that return_from_noreturn_origin [of _ Fn I] declaredNoReturn_is_FuncExpr [of Fn]
    by blast
  ultimately
  show "\<exists>ds. Diags C' = Diags (getASTContext M) @ emitted before @ ds @ emitted after \<and>
               ((\<exists>p. (p, return_from_noreturn) \<in> set ds) \<longrightarrow>
                  is_FuncExpr (getLocation Fn) \<and> (\<exists>L'. I = ReturnInst L'))"
    by blast
qed

theorem return_from_noreturn_only_in_declared_functions_witness:
  "visitInstruction
     (sampleFunction (Some (OtherNode 3)) [[ReturnInst (Some (OtherNode 5))]])
     (ReturnInst (Some (OtherNode 5))) \<lparr>Diags = []\<rparr> = Inr \<lparr>Diags = []\<rparr>"
proof -
  let ?Fn = "sampleFunction (Some (OtherNode 3)) [[ReturnInst (Some (OtherNode 5))]]"
  have h: "\<not> is_FuncExpr (getLocation ?Fn)" by (simp add: sampleFunction_def)
  from return_from_noreturn_only_in_declared_functions
    [where Fn = ?Fn, THEN conjunct1, rule_format, OF h]
  show ?thesis .
qed

end
